theory Spec2Isabelle
  imports Complex_Main "HOL-Library.Word"
begin

section \<open>The data of runtime/metrics that the generator reads\<close>

text \<open>
  \<^verbatim>\<open>gen_go_collector_metrics_set.go\<close> reads the catalog of the Go runtime
  (\<^verbatim>\<open>metrics.All()\<close>), reads the histogram samples (\<^verbatim>\<open>metrics.Read\<close>) and
  computes the number of series the Go collector is expected to expose
  (\<^verbatim>\<open>rmCardinality\<close>). The catalog and the values read are inputs of the model.

  \<^verbatim>\<open>metrics.ValueKind\<close> is a Go \<^verbatim>\<open>int\<close> with four named values (an \<^verbatim>\<open>iota\<close>
  enumeration); any other integer is a kind the generator does not know.
\<close>

type_synonym ValueKind = int

definition KindBad :: ValueKind where
  "KindBad = 0"

definition KindUint64 :: ValueKind where
  "KindUint64 = 1"

definition KindFloat64 :: ValueKind where
  "KindFloat64 = 2"

definition KindFloat64Histogram :: ValueKind where
  "KindFloat64Histogram = 3"

text \<open>
  A \<^verbatim>\<open>float64\<close> by its class: the two infinities, a finite number, or a NaN. The
  generator compares bucket boundaries with \<^verbatim>\<open>math.Inf(1)\<close> and \<^verbatim>\<open>math.Inf(-1)\<close>
  only; \<open>float64_eq\<close> is Go's \<^verbatim>\<open>==\<close>, which no NaN satisfies.
\<close>

datatype float64 = NegInf | Fin real | PosInf | NaN

definition float64_eq :: "float64 \<Rightarrow> float64 \<Rightarrow> bool" where
  "float64_eq x y = (x \<noteq> NaN \<and> y \<noteq> NaN \<and> x = y)"

record Description =
  Name :: string
  Description :: string
  Kind :: ValueKind
  Cumulative :: bool

record Float64Histogram =
  Counts :: "64 word list"
  Buckets :: "float64 list"

datatype Value =
    BadValue
  | Uint64Value "64 word"
  | Float64Value float64
  | Float64HistogramValue Float64Histogram

record Sample =
  Sample_Name :: string
  Sample_Value :: Value

text \<open>
  What stops the run: an index or a slice bound out of range, and
  \<^verbatim>\<open>Value.Float64Histogram()\<close> called on a value of another kind. The generator has
  no \<^verbatim>\<open>recover\<close>, so each of them ends the program.
\<close>

datatype panic = IndexOutOfRange | SliceBoundsOutOfRange | NotFloat64Histogram

type_synonym runtime = "string \<Rightarrow> Value"

type_synonym bucketsForUnit = "float64 list \<Rightarrow> string \<Rightarrow> float64 list"

section \<open>Go's built-in operations used by \<^verbatim>\<open>rmCardinality\<close>\<close>

text \<open>\<^verbatim>\<open>xs[i]\<close>: the element, or the panic of an index out of range.\<close>

definition index :: "'a list \<Rightarrow> int \<Rightarrow> panic + 'a" where
  "index xs i = (if 0 \<le> i \<and> i < int (length xs) then Inr (xs ! nat i) else Inl IndexOutOfRange)"

text \<open>\<^verbatim>\<open>s[k:]\<close> on a string: the bytes from \<open>k\<close> on, or the panic of a bound out of range.\<close>

definition sliceFrom :: "string \<Rightarrow> int \<Rightarrow> panic + string" where
  "sliceFrom s k = (if 0 \<le> k \<and> k \<le> int (length s) then Inr (drop (nat k) s) else Inl SliceBoundsOutOfRange)"

text \<open>
  \<^verbatim>\<open>strings.IndexRune(s, r)\<close> for a rune below \<^verbatim>\<open>utf8.RuneSelf\<close> (the generator passes
  \<^verbatim>\<open>':'\<close>): the index of the first byte equal to \<open>r\<close>, or \<open>-1\<close>.
\<close>

fun IndexRune :: "string \<Rightarrow> char \<Rightarrow> int" where
  "IndexRune [] r = - 1"
| "IndexRune (c # s) r =
     (if c = r then 0
      else (let i = IndexRune s r in if i < 0 then - 1 else i + 1))"

text \<open>\<^verbatim>\<open>Value.Float64Histogram()\<close> panics unless the value's kind is the histogram kind.\<close>

fun Float64Histogram_of :: "Value \<Rightarrow> panic + Float64Histogram" where
  "Float64Histogram_of (Float64HistogramValue h) = Inr h"
| "Float64Histogram_of v = Inl NotFloat64Histogram"

text \<open>
  \<^verbatim>\<open>metrics.Read(histograms)\<close> stores into every sample the value the runtime has under
  the sample's name.
\<close>

definition metricsRead :: "runtime \<Rightarrow> Sample list \<Rightarrow> Sample list" where
  "metricsRead rt hs = map (\<lambda>s. s\<lparr>Sample_Value := rt (Sample_Name s)\<rparr>) hs"

section \<open>\<^verbatim>\<open>rmCardinality\<close>\<close>

text \<open>
  The first loop (lines 110 to 117): a descriptor of the histogram kind is appended to
  \<open>histograms\<close> as a sample with the zero value, every other descriptor adds one.
\<close>

fun collectHistograms :: "Description list \<Rightarrow> int \<Rightarrow> Sample list \<Rightarrow> int \<times> Sample list" where
  "collectHistograms [] cardinality histograms = (cardinality, histograms)"
| "collectHistograms (d # ds) cardinality histograms =
     (if Kind d = KindFloat64Histogram
      then collectHistograms ds cardinality
             (histograms @ [\<lparr>Sample_Name = Name d, Sample_Value = BadValue\<rparr>])
      else collectHistograms ds (cardinality + 1) histograms)"

text \<open>The unit passed on (line 125): \<^verbatim>\<open>name[strings.IndexRune(name, ':')+1:]\<close>.\<close>

definition unitOf :: "string \<Rightarrow> panic + string" where
  "unitOf name = sliceFrom name (IndexRune name CHR '':'' + 1)"

text \<open>
  Lines 122 to 126. \<^verbatim>\<open>internal.RuntimeMetricsBucketsForUnit\<close> is not part of this file:
  it is the parameter \<open>bfu\<close>. Go evaluates the arguments from left to right, so the
  kind check of \<^verbatim>\<open>Float64Histogram()\<close> comes before the slice.
\<close>

definition adjustedBuckets :: "bucketsForUnit \<Rightarrow> Sample \<Rightarrow> panic + float64 list" where
  "adjustedBuckets bfu h =
     (case Float64Histogram_of (Sample_Value h) of
        Inl e \<Rightarrow> Inl e
      | Inr fh \<Rightarrow>
          (case unitOf (Sample_Name h) of
             Inl e \<Rightarrow> Inl e
           | Inr u \<Rightarrow> Inr (bfu (Buckets fh) u)))"

text \<open>The body of the second loop (lines 122 to 145), from the running total to the next one.\<close>

definition countHistogram :: "bucketsForUnit \<Rightarrow> int \<Rightarrow> Sample \<Rightarrow> panic + int" where
  "countHistogram bfu cardinality h =
     (case adjustedBuckets bfu h of
        Inl e \<Rightarrow> Inl e
      | Inr buckets \<Rightarrow>
          (let cardinality = cardinality + (int (length buckets) + 3);
               cardinality = cardinality - 1
           in case index buckets (int (length buckets) - 1) of
                Inl e \<Rightarrow> Inl e
              | Inr hi \<Rightarrow>
                  (let cardinality = (if float64_eq hi PosInf then cardinality - 1 else cardinality)
                   in case index buckets 0 of
                        Inl e \<Rightarrow> Inl e
                      | Inr lo \<Rightarrow>
                          Inr (if float64_eq lo NegInf then cardinality - 1 else cardinality))))"

text \<open>The second loop (line 121), over the samples in order; a panic ends it.\<close>

fun handleHistograms :: "bucketsForUnit \<Rightarrow> Sample list \<Rightarrow> int \<Rightarrow> panic + int" where
  "handleHistograms bfu [] cardinality = Inr cardinality"
| "handleHistograms bfu (h # hs) cardinality =
     (case countHistogram bfu cardinality h of
        Inl e \<Rightarrow> Inl e
      | Inr cardinality' \<Rightarrow> handleHistograms bfu hs cardinality')"

text \<open>
  \<^verbatim>\<open>rmCardinality\<close> (lines 104 to 149), with \<^verbatim>\<open>metrics.All()\<close> as \<open>catalog\<close> and the
  runtime's values as \<open>rt\<close>. Go's \<^verbatim>\<open>int\<close> has 64 bits here; the total is bounded by
  the number of descriptors and of boundaries held in memory, far below \<open>2^63\<close>, so it is
  an unbounded \<open>int\<close> in the model.
\<close>

definition rmCardinality :: "Description list \<Rightarrow> runtime \<Rightarrow> bucketsForUnit \<Rightarrow> panic + int" where
  "rmCardinality catalog rt bfu =
     (case collectHistograms catalog 0 [] of
        (cardinality, histograms) \<Rightarrow>
          handleHistograms bfu (metricsRead rt histograms) cardinality)"

section \<open>The generated file\<close>

text \<open>
  The template function \<^verbatim>\<open>rm2prom\<close> (lines 152 to 158). \<^verbatim>\<open>internal.RuntimeMetricsToProm\<close>
  and \<^verbatim>\<open>prometheus.BuildFQName\<close> are not part of this file: they are the parameters
  \<open>toProm\<close> and \<open>buildFQName\<close>.
\<close>

type_synonym translator = "Description \<Rightarrow> string \<times> string \<times> string \<times> bool"

type_synonym fqName = "string \<Rightarrow> string \<Rightarrow> string \<Rightarrow> string"

definition rm2prom :: "translator \<Rightarrow> fqName \<Rightarrow> Description \<Rightarrow> string" where
  "rm2prom toProm buildFQName d =
     (case toProm d of (ns, ss, n, ok) \<Rightarrow> if \<not> ok then [] else buildFQName ns ss n)"

text \<open>
  The \<^verbatim>\<open>range .Descriptions\<close> of the template (lines 171 to 176): one entry of the map
  \<^verbatim>\<open>expectedRuntimeMetrics\<close> for every descriptor whose translation is not the empty
  string, in the order of the catalog. An entry is the pair of the two strings that the
  template prints.
\<close>

fun rangeDescriptions :: "translator \<Rightarrow> fqName \<Rightarrow> Description list \<Rightarrow> (string \<times> string) list" where
  "rangeDescriptions toProm buildFQName [] = []"
| "rangeDescriptions toProm buildFQName (d # ds) =
     (let trans = rm2prom toProm buildFQName d
      in if trans \<noteq> [] then (Name d, trans) # rangeDescriptions toProm buildFQName ds
         else rangeDescriptions toProm buildFQName ds)"

text \<open>
  What \<^verbatim>\<open>main\<close> generates from the catalog (lines 66 to 76 and the template): the map
  and the constant \<^verbatim>\<open>expectedRuntimeMetricsCardinality\<close>. The cardinality is computed
  while the template's data is built, so a panic there leaves no file. The Go version,
  which goes into the build tags only, is left out.
\<close>

record generated =
  expectedRuntimeMetrics :: "(string \<times> string) list"
  expectedRuntimeMetricsCardinality :: int

definition generate ::
  "translator \<Rightarrow> fqName \<Rightarrow> Description list \<Rightarrow> runtime \<Rightarrow> bucketsForUnit \<Rightarrow> panic + generated" where
  "generate toProm buildFQName catalog rt bfu =
     (case rmCardinality catalog rt bfu of
        Inl e \<Rightarrow> Inl e
      | Inr cardinality \<Rightarrow>
          Inr \<lparr>expectedRuntimeMetrics = rangeDescriptions toProm buildFQName catalog,
               expectedRuntimeMetricsCardinality = cardinality\<rparr>)"

text \<open>
  Modelled from the spec: \<^verbatim>\<open>internal.RuntimeMetricsToProm\<close>, which is not part of this
  file. The spec's Name Translator consults a static table keyed by the descriptor's name
  that gives a known metric its namespace, subsystem and name; a descriptor absent from
  the table is excluded.
\<close>

definition RuntimeMetricsToProm :: "(string \<rightharpoonup> string \<times> string \<times> string) \<Rightarrow> translator" where
  "RuntimeMetricsToProm table d =
     (case table (Name d) of
        None \<Rightarrow> ([], [], [], False)
      | Some (ns, ss, n) \<Rightarrow> (ns, ss, n, True))"

section \<open>Notions of the specification\<close>

text \<open>A Scalar descriptor: a single number, unsigned or floating point.\<close>

definition isScalar :: "Description \<Rightarrow> bool" where
  "isScalar d = (Kind d = KindUint64 \<or> Kind d = KindFloat64)"

definition isHistogram :: "Description \<Rightarrow> bool" where
  "isHistogram d = (Kind d = KindFloat64Histogram)"

text \<open>The sample of a descriptor as it is after \<^verbatim>\<open>metrics.Read\<close>.\<close>

definition sampleOf :: "runtime \<Rightarrow> Description \<Rightarrow> Sample" where
  "sampleOf rt d = \<lparr>Sample_Name = Name d, Sample_Value = rt (Name d)\<rparr>"

text \<open>The (adjusted) boundary array of a descriptor: what line 123 binds to \<open>buckets\<close>.\<close>

definition boundaries :: "runtime \<Rightarrow> bucketsForUnit \<Rightarrow> Description \<Rightarrow> panic + float64 list" where
  "boundaries rt bfu d = adjustedBuckets bfu (sampleOf rt d)"

text \<open>The portion of a name after its last \<open>:\<close>, as the specification words the unit.\<close>

definition afterLastColon :: "string \<Rightarrow> string" where
  "afterLastColon name = rev (takeWhile (\<lambda>c. c \<noteq> CHR '':'') (rev name))"

text \<open>The portion of a name after its first \<open>:\<close>; the whole name when it has none.\<close>

definition afterFirstColon :: "string \<Rightarrow> string" where
  "afterFirstColon name =
     (case dropWhile (\<lambda>c. c \<noteq> CHR '':'') name of [] \<Rightarrow> name | c # u \<Rightarrow> u)"

text \<open>Adding to the total of a run, when the run has one.\<close>

definition addSeries :: "int \<Rightarrow> panic + int \<Rightarrow> panic + int" where
  "addSeries k r = (case r of Inl e \<Rightarrow> Inl e | Inr n \<Rightarrow> Inr (n + k))"

section \<open>Example inputs\<close>

text \<open>A descriptor with the given name and kind.\<close>

definition exDescription :: "string \<Rightarrow> ValueKind \<Rightarrow> Description" where
  "exDescription name kind = \<lparr>Name = name, Description = [], Kind = kind, Cumulative = False\<rparr>"

text \<open>A runtime in which every name holds the same histogram.\<close>

definition exRuntime :: "64 word list \<Rightarrow> float64 list \<Rightarrow> runtime" where
  "exRuntime counts buckets name = Float64HistogramValue \<lparr>Counts = counts, Buckets = buckets\<rparr>"

text \<open>An adjustment that leaves the boundaries of every unit as they are.\<close>

definition exBucketsForUnit :: bucketsForUnit where
  "exBucketsForUnit buckets u = buckets"

text \<open>A naming table with one entry, and a joining of the three parts of a name.\<close>

definition exTable :: "string \<rightharpoonup> string \<times> string \<times> string" where
  "exTable = [''/gc/pauses:seconds'' \<mapsto> (''go'', ''gc'', ''pauses_seconds'')]"

definition exBuildFQName :: fqName where
  "exBuildFQName ns ss n = ns @ ''_'' @ ss @ ''_'' @ n"

section \<open>The two loops\<close>

lemma float64_eq_PosInf [simp]: "float64_eq x PosInf = (x = PosInf)"
  by (auto simp: float64_eq_def)

lemma float64_eq_NegInf [simp]: "float64_eq x NegInf = (x = NegInf)"
  by (auto simp: float64_eq_def)

lemma addSeries_simps [simp]:
  "addSeries k (Inl e) = Inl e"
  "addSeries k (Inr n) = Inr (n + k)"
  by (simp_all add: addSeries_def)

lemma addSeries_addSeries: "addSeries k (addSeries j r) = addSeries (j + k) r"
  by (cases r) simp_all

lemma addSeries_zero [simp]: "addSeries 0 r = r"
  by (cases r) simp_all

lemma collectHistograms_eq:
  "collectHistograms ds c hs =
     (c + int (length (filter (\<lambda>d. \<not> isHistogram d) ds)),
      hs @ map (\<lambda>d. \<lparr>Sample_Name = Name d, Sample_Value = BadValue\<rparr>) (filter isHistogram ds))"
  by (induction ds arbitrary: c hs) (simp_all add: isHistogram_def)

lemma metricsRead_map:
  "metricsRead rt (map (\<lambda>d. \<lparr>Sample_Name = Name d, Sample_Value = BadValue\<rparr>) ds) = map (sampleOf rt) ds"
  by (simp add: metricsRead_def sampleOf_def)

lemma rmCardinality_eq:
  "rmCardinality catalog rt bfu =
     handleHistograms bfu (map (sampleOf rt) (filter isHistogram catalog))
       (int (length (filter (\<lambda>d. \<not> isHistogram d) catalog)))"
  by (simp add: rmCardinality_def collectHistograms_eq metricsRead_map)

lemma countHistogram_shift:
  "countHistogram bfu (c + k) h = addSeries k (countHistogram bfu c h)"
  by (simp add: countHistogram_def Let_def split: sum.splits)

lemma handleHistograms_shift:
  "handleHistograms bfu hs (c + k) = addSeries k (handleHistograms bfu hs c)"
proof (induction hs arbitrary: c)
  case Nil
  show ?case by simp
next
  case (Cons h hs)
  show ?case
  proof (cases "countHistogram bfu c h")
    case (Inl e)
    then show ?thesis by (simp add: countHistogram_shift)
  next
    case (Inr c')
    then show ?thesis by (simp add: countHistogram_shift Cons.IH)
  qed
qed

lemma handleHistograms_append:
  "handleHistograms bfu (hs1 @ hs2) c =
     (case handleHistograms bfu hs1 c of
        Inl e \<Rightarrow> Inl e
      | Inr c' \<Rightarrow> handleHistograms bfu hs2 c')"
  by (induction hs1 arbitrary: c) (simp_all split: sum.splits)

lemma handleHistograms_insert:
  assumes "countHistogram bfu 0 h = Inr k"
  shows "handleHistograms bfu (hs1 @ h # hs2) c = addSeries k (handleHistograms bfu (hs1 @ hs2) c)"
proof (cases "handleHistograms bfu hs1 c")
  case (Inl e)
  then show ?thesis by (simp add: handleHistograms_append)
next
  case (Inr c')
  have "countHistogram bfu (0 + c') h = Inr (k + c')"
    unfolding countHistogram_shift using assms by simp
  then have "handleHistograms bfu (h # hs2) c' = handleHistograms bfu hs2 (c' + k)"
    by (simp add: add.commute)
  with Inr show ?thesis
    by (simp add: handleHistograms_append handleHistograms_shift)
qed

lemma rmCardinality_insert_histogram:
  assumes "Kind d = KindFloat64Histogram"
    and "countHistogram bfu 0 (sampleOf rt d) = Inr k"
  shows "rmCardinality (xs @ d # ys) rt bfu = addSeries k (rmCardinality (xs @ ys) rt bfu)"
  using assms(1) handleHistograms_insert [OF assms(2)]
  by (simp add: rmCardinality_eq isHistogram_def)

lemma rmCardinality_insert_other:
  assumes "Kind d \<noteq> KindFloat64Histogram"
  shows "rmCardinality (xs @ d # ys) rt bfu = addSeries 1 (rmCardinality (xs @ ys) rt bfu)"
proof -
  have "int (length (filter (\<lambda>d. \<not> isHistogram d) (xs @ d # ys)))
      = int (length (filter (\<lambda>d. \<not> isHistogram d) (xs @ ys))) + 1"
    using assms by (simp add: isHistogram_def)
  moreover have "filter isHistogram (xs @ d # ys) = filter isHistogram (xs @ ys)"
    using assms by (simp add: isHistogram_def)
  ultimately show ?thesis
    by (simp only: rmCardinality_eq handleHistograms_shift)
qed

lemma index_last: "B \<noteq> [] \<Longrightarrow> index B (int (length B) - 1) = Inr (last B)"
  by (cases B rule: rev_cases) (simp_all add: index_def nth_append)

lemma index_first: "B \<noteq> [] \<Longrightarrow> index B 0 = Inr (hd B)"
  by (cases B) (simp_all add: index_def)

lemma countHistogram_nonempty:
  assumes "adjustedBuckets bfu h = Inr B" and "B \<noteq> []"
  shows "countHistogram bfu c h =
     Inr (c + (int (length B) + 3 - 1
               - (if last B = PosInf then 1 else 0) - (if hd B = NegInf then 1 else 0)))"
  using assms by (simp add: countHistogram_def Let_def index_last index_first)

lemma countHistogram_empty:
  assumes "adjustedBuckets bfu h = Inr []"
  shows "countHistogram bfu c h = Inl IndexOutOfRange"
  using assms by (simp add: countHistogram_def Let_def index_def)

lemma countHistogram_panic:
  assumes "adjustedBuckets bfu h = Inl e"
  shows "countHistogram bfu c h = Inl e"
  using assms by (simp add: countHistogram_def)

section \<open>The unit of a name\<close>

lemma IndexRune_eq:
  "IndexRune s r = (if r \<in> set s then int (length (takeWhile (\<lambda>c. c \<noteq> r) s)) else - 1)"
  by (induction s) (simp_all add: Let_def)

lemma length_takeWhile_less:
  "r \<in> set s \<Longrightarrow> length (takeWhile (\<lambda>c. c \<noteq> r) s) < length s"
  by (induction s) auto

lemma drop_takeWhile_Suc:
  "drop (Suc (length (takeWhile P s))) s = tl (dropWhile P s)"
  by (induction s) simp_all

lemma afterFirstColon_eq:
  "afterFirstColon name =
     (if CHR '':'' \<in> set name then tl (dropWhile (\<lambda>c. c \<noteq> CHR '':'') name) else name)"
proof (cases "dropWhile (\<lambda>c. c \<noteq> CHR '':'') name")
  case Nil
  then have "CHR '':'' \<notin> set name"
    by (auto simp: dropWhile_eq_Nil_conv)
  moreover have "afterFirstColon name = name"
    unfolding afterFirstColon_def Nil by simp
  ultimately show ?thesis by simp
next
  case (Cons c u)
  then have "c \<in> set name" and "c = CHR '':''"
    using set_dropWhileD [of c "\<lambda>c. c \<noteq> CHR '':''" name]
      hd_dropWhile [of "\<lambda>c. c \<noteq> CHR '':''" name] by simp_all
  then have "CHR '':'' \<in> set name" by simp
  moreover have "afterFirstColon name = u"
    unfolding afterFirstColon_def Cons by simp
  ultimately show ?thesis using Cons by simp
qed

lemma unitOf_eq: "unitOf name = Inr (afterFirstColon name)"
proof (cases "CHR '':'' \<in> set name")
  case True
  have le: "length (takeWhile (\<lambda>c. c \<noteq> CHR '':'') name) < length name"
    using True by (rule length_takeWhile_less)
  have nat: "nat (int (length (takeWhile (\<lambda>c. c \<noteq> CHR '':'') name)) + 1)
      = Suc (length (takeWhile (\<lambda>c. c \<noteq> CHR '':'') name))"
    by simp
  have "unitOf name = Inr (tl (dropWhile (\<lambda>c. c \<noteq> CHR '':'') name))"
    using True le by (simp add: unitOf_def sliceFrom_def IndexRune_eq nat drop_takeWhile_Suc del: of_nat_Suc)
  then show ?thesis using True by (simp add: afterFirstColon_eq)
next
  case False
  then show ?thesis
    by (simp add: unitOf_def sliceFrom_def IndexRune_eq afterFirstColon_eq)
qed

lemma afterLastColon_no_colon:
  assumes "CHR '':'' \<notin> set name"
  shows "afterLastColon name = name"
proof -
  have "takeWhile (\<lambda>c. c \<noteq> CHR '':'') (rev name) = rev name"
    using assms by (auto simp: takeWhile_eq_all_conv)
  then show ?thesis unfolding afterLastColon_def by (simp only: rev_rev_ident)
qed

lemma afterLastColon_split:
  assumes "CHR '':'' \<notin> set ys"
  shows "afterLastColon (xs @ CHR '':'' # ys) = ys"
proof -
  have "takeWhile (\<lambda>c. c \<noteq> CHR '':'') (rev ys @ CHR '':'' # rev xs) = rev ys"
    using assms by (auto simp: takeWhile_tail)
  then show ?thesis unfolding afterLastColon_def by simp
qed

lemma afterFirstColon_split:
  assumes "CHR '':'' \<notin> set xs"
  shows "afterFirstColon (xs @ CHR '':'' # ys) = ys"
proof -
  have "dropWhile (\<lambda>c. c \<noteq> CHR '':'') (xs @ CHR '':'' # ys) = CHR '':'' # ys"
    using assms by (auto simp: dropWhile_append3)
  then show ?thesis by (simp add: afterFirstColon_eq)
qed

lemma afterFirstColon_afterLastColon:
  assumes "count_list name CHR '':'' \<le> 1"
  shows "afterFirstColon name = afterLastColon name"
proof (cases "CHR '':'' \<in> set name")
  case False
  then show ?thesis
    by (simp add: afterLastColon_no_colon afterFirstColon_eq)
next
  case True
  then obtain xs ys where name: "name = xs @ CHR '':'' # ys" and xs: "CHR '':'' \<notin> set xs"
    by (auto dest: split_list_first)
  from assms name have "count_list ys CHR '':'' = 0"
    by simp
  then have ys: "CHR '':'' \<notin> set ys"
    by (simp add: count_list_0_iff)
  show ?thesis
    unfolding name by (simp only: afterFirstColon_split [OF xs] afterLastColon_split [OF ys])
qed

section \<open>Replacing and removing descriptors\<close>

lemma generate_cardinality:
  "map_sum id expectedRuntimeMetricsCardinality (generate toProm fq catalog rt bfu)
     = rmCardinality catalog rt bfu"
  by (cases "rmCardinality catalog rt bfu") (simp_all add: generate_def)

lemma countHistogram_cong:
  assumes "adjustedBuckets bfu h1 = adjustedBuckets bfu h2"
  shows "countHistogram bfu c h1 = countHistogram bfu c h2"
  using assms by (simp add: countHistogram_def)

lemma handleHistograms_replace:
  assumes "adjustedBuckets bfu h1 = adjustedBuckets bfu h2"
  shows "handleHistograms bfu (hs1 @ h1 # hs2) c = handleHistograms bfu (hs1 @ h2 # hs2) c"
  by (simp add: handleHistograms_append countHistogram_cong [OF assms] split: sum.splits)

lemma handleHistograms_cong:
  assumes "\<forall>d\<in>set ds. adjustedBuckets bfu (f d) = adjustedBuckets bfu (g d)"
  shows "handleHistograms bfu (map f ds) c = handleHistograms bfu (map g ds) c"
  using assms
proof (induction ds arbitrary: c)
  case Nil
  show ?case by simp
next
  case (Cons d ds)
  from Cons.prems have "adjustedBuckets bfu (f d) = adjustedBuckets bfu (g d)"
    by simp
  then have "countHistogram bfu c (f d) = countHistogram bfu c (g d)"
    by (rule countHistogram_cong)
  moreover from Cons.prems
  have "\<And>c'. handleHistograms bfu (map f ds) c' = handleHistograms bfu (map g ds) c'"
    by (simp add: Cons.IH)
  ultimately show ?case by (simp split: sum.splits)
qed

lemma adjustedBuckets_panic:
  "adjustedBuckets bfu h = Inl e \<Longrightarrow> e = NotFloat64Histogram"
  by (cases "Sample_Value h") (simp_all add: adjustedBuckets_def unitOf_eq)

lemma countHistogram_IndexOutOfRange:
  assumes "countHistogram bfu c h = Inl IndexOutOfRange"
  shows "adjustedBuckets bfu h = Inr []"
proof (cases "adjustedBuckets bfu h")
  case (Inl e)
  have "e = NotFloat64Histogram"
    using Inl by (rule adjustedBuckets_panic)
  moreover have "countHistogram bfu c h = Inl e"
    using Inl by (rule countHistogram_panic)
  ultimately show ?thesis using assms by simp
next
  case (Inr B)
  show ?thesis
  proof (cases "B = []")
    case True
    with Inr show ?thesis by simp
  next
    case False
    from countHistogram_nonempty [OF Inr False, of c] assms show ?thesis by simp
  qed
qed

lemma handleHistograms_IndexOutOfRange:
  "handleHistograms bfu hs c = Inl IndexOutOfRange \<Longrightarrow> \<exists>h\<in>set hs. adjustedBuckets bfu h = Inr []"
proof (induction hs arbitrary: c)
  case Nil
  then show ?case by simp
next
  case (Cons h hs)
  show ?case
  proof (cases "countHistogram bfu c h")
    case (Inl e)
    with Cons.prems have "countHistogram bfu c h = Inl IndexOutOfRange" by simp
    then show ?thesis by (simp add: countHistogram_IndexOutOfRange)
  next
    case (Inr c')
    with Cons.prems have "handleHistograms bfu hs c' = Inl IndexOutOfRange" by simp
    then show ?thesis using Cons.IH by auto
  qed
qed

lemma handleHistograms_empty_buckets:
  "h \<in> set hs \<Longrightarrow> adjustedBuckets bfu h = Inr [] \<Longrightarrow> \<exists>e. handleHistograms bfu hs c = Inl e"
proof (induction hs arbitrary: c)
  case Nil
  then show ?case by simp
next
  case (Cons a hs)
  show ?case
  proof (cases "countHistogram bfu c a")
    case (Inl e)
    then show ?thesis by simp
  next
    case (Inr c')
    with Cons.prems have "h \<noteq> a"
      by (auto simp: countHistogram_empty)
    with Cons.prems have "h \<in> set hs" by simp
    from Cons.IH [OF this Cons.prems(2)] Inr show ?thesis by simp
  qed
qed

lemma scalar_not_histogram: "isScalar d \<Longrightarrow> \<not> isHistogram d"
  by (auto simp: isScalar_def isHistogram_def KindUint64_def KindFloat64_def KindFloat64Histogram_def)

lemma filter_histogram_non_scalar:
  "filter isHistogram (filter (\<lambda>d. \<not> isScalar d) ds) = filter isHistogram ds"
  by (induction ds) (auto dest: scalar_not_histogram)

lemma length_filter_other:
  "length (filter (\<lambda>d. \<not> isHistogram d) ds)
     = length (filter (\<lambda>d. \<not> isHistogram d) (filter (\<lambda>d. \<not> isScalar d) ds))
       + length (filter isScalar ds)"
  by (induction ds) (auto dest: scalar_not_histogram)

lemma rangeDescriptions_append:
  "rangeDescriptions toProm fq (xs @ ys) = rangeDescriptions toProm fq xs @ rangeDescriptions toProm fq ys"
  by (induction xs) (simp_all add: Let_def)

section \<open>Evaluation of concrete runs\<close>

lemmas ex_defs = exDescription_def exRuntime_def exBucketsForUnit_def
  KindBad_def KindUint64_def KindFloat64_def KindFloat64Histogram_def

lemmas run_defs = rmCardinality_def metricsRead_def countHistogram_def adjustedBuckets_def
  boundaries_def sampleOf_def unitOf_def sliceFrom_def index_def addSeries_def Let_def

section \<open>The claims\<close>

text \<open>
  Claim C1. A descriptor of the histogram kind whose adjusted boundary array \<open>B\<close> is not
  empty adds \<open>len(B) + 3 - 1\<close> to the total, one less when the last element of \<open>B\<close> is
  \<open>+Inf\<close> and one less when the first is \<open>-Inf\<close>: the run over a catalog with the
  descriptor is the run over the catalog without it plus that number (and panics where
  that run panics).
\<close>

theorem histogram_contribution:
  assumes "Kind d = KindFloat64Histogram"
    and "boundaries rt bfu d = Inr B"
    and "B \<noteq> []"
  shows "rmCardinality (xs @ d # ys) rt bfu =
     addSeries (int (length B) + 3 - 1
                - (if last B = PosInf then 1 else 0) - (if hd B = NegInf then 1 else 0))
       (rmCardinality (xs @ ys) rt bfu)"
proof -
  have "adjustedBuckets bfu (sampleOf rt d) = Inr B"
    using assms(2) by (simp add: boundaries_def)
  from countHistogram_nonempty [OF this assms(3), of 0]
  show ?thesis
    using assms(1) by (simp add: rmCardinality_insert_histogram)
qed

theorem histogram_contribution_witness:
  "Kind (exDescription ''/gc/pauses:seconds'' KindFloat64Histogram) = KindFloat64Histogram
   \<and> boundaries (exRuntime [4, 2] [NegInf, Fin 1, PosInf]) exBucketsForUnit
        (exDescription ''/gc/pauses:seconds'' KindFloat64Histogram) = Inr [NegInf, Fin 1, PosInf]
   \<and> [NegInf, Fin 1, PosInf] \<noteq> []
   \<and> rmCardinality
        ([exDescription ''/gc/cycles:gc-cycles'' KindUint64]
         @ exDescription ''/gc/pauses:seconds'' KindFloat64Histogram # [])
        (exRuntime [4, 2] [NegInf, Fin 1, PosInf]) exBucketsForUnit = Inr 4
   \<and> rmCardinality ([exDescription ''/gc/cycles:gc-cycles'' KindUint64] @ [])
        (exRuntime [4, 2] [NegInf, Fin 1, PosInf]) exBucketsForUnit = Inr 1"
proof -
  let ?d = "exDescription ''/gc/pauses:seconds'' KindFloat64Histogram"
  let ?rt = "exRuntime [4, 2] [NegInf, Fin 1, PosInf]"
  let ?xs = "[exDescription ''/gc/cycles:gc-cycles'' KindUint64]"
  have k: "Kind ?d = KindFloat64Histogram"
    by (simp add: exDescription_def)
  have b: "boundaries ?rt exBucketsForUnit ?d = Inr [NegInf, Fin 1, PosInf]"
    by (simp add: run_defs ex_defs)
  have n: "[NegInf, Fin 1, PosInf] \<noteq> []"
    by simp
  have r: "rmCardinality (?xs @ []) ?rt exBucketsForUnit = Inr 1"
    by (simp add: run_defs ex_defs)
  from histogram_contribution [OF k b n, of ?xs "[]"] k b n r
  show ?thesis by simp
qed

text \<open>
  Claim C2, as amended. A histogram whose adjusted boundary array is
  \<open>[-Inf, b1, ..., bn, +Inf]\<close> adds \<open>(n + 2) + 3 - 1 - 1 - 1 = n + 2\<close> to the total. The
  claim's \<open>n + 3\<close> leaves out one of the three decrements of the loop body; with the one
  interior boundary of the counterexample the run gives 3, not 4.
\<close>

theorem both_infinities_contribution:
  assumes "Kind d = KindFloat64Histogram"
    and "boundaries rt bfu d = Inr (NegInf # bs @ [PosInf])"
  shows "rmCardinality (xs @ d # ys) rt bfu =
     addSeries (int (length bs) + 2) (rmCardinality (xs @ ys) rt bfu)"
proof -
  have "adjustedBuckets bfu (sampleOf rt d) = Inr (NegInf # bs @ [PosInf])"
    using assms(2) by (simp add: boundaries_def)
  from countHistogram_nonempty [OF this, of 0]
  have "countHistogram bfu 0 (sampleOf rt d) = Inr (int (length bs) + 2)"
    by simp
  then show ?thesis
    using assms(1) by (simp add: rmCardinality_insert_histogram)
qed

theorem both_infinities_contribution_witness:
  "Kind (exDescription ''/gc/pauses:seconds'' KindFloat64Histogram) = KindFloat64Histogram
   \<and> boundaries (exRuntime [4, 2, 0, 1] [NegInf, Fin 1, Fin 5, Fin 10, PosInf]) exBucketsForUnit
        (exDescription ''/gc/pauses:seconds'' KindFloat64Histogram)
       = Inr (NegInf # [Fin 1, Fin 5, Fin 10] @ [PosInf])
   \<and> rmCardinality ([] @ exDescription ''/gc/pauses:seconds'' KindFloat64Histogram # [])
        (exRuntime [4, 2, 0, 1] [NegInf, Fin 1, Fin 5, Fin 10, PosInf]) exBucketsForUnit = Inr 5
   \<and> rmCardinality ([] @ [])
        (exRuntime [4, 2, 0, 1] [NegInf, Fin 1, Fin 5, Fin 10, PosInf]) exBucketsForUnit = Inr 0"
proof -
  let ?d = "exDescription ''/gc/pauses:seconds'' KindFloat64Histogram"
  let ?rt = "exRuntime [4, 2, 0, 1] [NegInf, Fin 1, Fin 5, Fin 10, PosInf]"
  have k: "Kind ?d = KindFloat64Histogram"
    by (simp add: exDescription_def)
  have b: "boundaries ?rt exBucketsForUnit ?d = Inr (NegInf # [Fin 1, Fin 5, Fin 10] @ [PosInf])"
    by (simp add: run_defs ex_defs)
  have r: "rmCardinality ([] @ []) ?rt exBucketsForUnit = Inr 0"
    by (simp add: run_defs)
  from both_infinities_contribution [OF k b, of "[]" "[]"] k b r
  show ?thesis by simp
qed

theorem both_infinities_counterexample:
  "boundaries (exRuntime [4, 2] [NegInf, Fin 1, PosInf]) exBucketsForUnit
     (exDescription ''/gc/pauses:seconds'' KindFloat64Histogram) = Inr [NegInf, Fin 1, PosInf]
   \<and> rmCardinality [exDescription ''/gc/pauses:seconds'' KindFloat64Histogram]
        (exRuntime [4, 2] [NegInf, Fin 1, PosInf]) exBucketsForUnit = Inr 3
   \<and> rmCardinality [exDescription ''/gc/pauses:seconds'' KindFloat64Histogram]
        (exRuntime [4, 2] [NegInf, Fin 1, PosInf]) exBucketsForUnit
       \<noteq> addSeries (1 + 3) (rmCardinality [] (exRuntime [4, 2] [NegInf, Fin 1, PosInf]) exBucketsForUnit)"
  by (simp add: run_defs ex_defs)

text \<open>
  Claim C5. A histogram whose adjusted boundary array is not empty and holds neither
  \<open>-Inf\<close> nor \<open>+Inf\<close> adds \<open>len(B) + 2\<close> to the total; with the \<open>n + 1\<close> boundaries
  \<open>b0, ..., bn\<close> that is \<open>n + 3\<close>.
\<close>

theorem no_infinity_contribution:
  assumes "Kind d = KindFloat64Histogram"
    and "boundaries rt bfu d = Inr B"
    and "B \<noteq> []"
    and "NegInf \<notin> set B"
    and "PosInf \<notin> set B"
  shows "rmCardinality (xs @ d # ys) rt bfu =
     addSeries (int (length B) + 2) (rmCardinality (xs @ ys) rt bfu)"
proof -
  have "adjustedBuckets bfu (sampleOf rt d) = Inr B"
    using assms(2) by (simp add: boundaries_def)
  moreover have "last B \<noteq> PosInf"
    using assms(5) last_in_set [OF assms(3)] by auto
  moreover have "hd B \<noteq> NegInf"
    using assms(4) hd_in_set [OF assms(3)] by auto
  ultimately have "countHistogram bfu 0 (sampleOf rt d) = Inr (int (length B) + 2)"
    using countHistogram_nonempty [of bfu "sampleOf rt d" B 0] assms(3) by simp
  then show ?thesis
    using assms(1) by (simp add: rmCardinality_insert_histogram)
qed

theorem no_infinity_contribution_witness:
  "Kind (exDescription ''/sched/latencies:seconds'' KindFloat64Histogram) = KindFloat64Histogram
   \<and> boundaries (exRuntime [7, 0, 1] [Fin 0, Fin 1, Fin 2, Fin 4]) exBucketsForUnit
        (exDescription ''/sched/latencies:seconds'' KindFloat64Histogram)
       = Inr [Fin 0, Fin 1, Fin 2, Fin 4]
   \<and> [Fin 0, Fin 1, Fin 2, Fin 4] \<noteq> []
   \<and> NegInf \<notin> set [Fin 0, Fin 1, Fin 2, Fin 4]
   \<and> PosInf \<notin> set [Fin 0, Fin 1, Fin 2, Fin 4]
   \<and> rmCardinality
        ([] @ exDescription ''/sched/latencies:seconds'' KindFloat64Histogram
            # [exDescription ''/gc/cycles:gc-cycles'' KindUint64])
        (exRuntime [7, 0, 1] [Fin 0, Fin 1, Fin 2, Fin 4]) exBucketsForUnit = Inr 7
   \<and> rmCardinality ([] @ [exDescription ''/gc/cycles:gc-cycles'' KindUint64])
        (exRuntime [7, 0, 1] [Fin 0, Fin 1, Fin 2, Fin 4]) exBucketsForUnit = Inr 1"
proof -
  let ?d = "exDescription ''/sched/latencies:seconds'' KindFloat64Histogram"
  let ?rt = "exRuntime [7, 0, 1] [Fin 0, Fin 1, Fin 2, Fin 4]"
  let ?ys = "[exDescription ''/gc/cycles:gc-cycles'' KindUint64]"
  have k: "Kind ?d = KindFloat64Histogram"
    by (simp add: exDescription_def)
  have b: "boundaries ?rt exBucketsForUnit ?d = Inr [Fin 0, Fin 1, Fin 2, Fin 4]"
    by (simp add: run_defs ex_defs)
  have n: "[Fin 0, Fin 1, Fin 2, Fin 4] \<noteq> []"
    by simp
  have i: "NegInf \<notin> set [Fin 0, Fin 1, Fin 2, Fin 4]" "PosInf \<notin> set [Fin 0, Fin 1, Fin 2, Fin 4]"
    by simp_all
  have r: "rmCardinality ([] @ ?ys) ?rt exBucketsForUnit = Inr 1"
    by (simp add: run_defs ex_defs)
  from no_infinity_contribution [OF k b n i, of "[]" ?ys] k b n i r
  show ?thesis by simp
qed

text \<open>
  Claim C3. A catalog of three descriptors, two of them Scalar and one a histogram,
  gives the total 7 when the histogram's adjusted boundaries are \<open>[1, 5, 10]\<close>
  (\<open>2 + (3 + 3 - 1)\<close>) and also when they are \<open>[-Inf, 1, 5, 10, +Inf]\<close>
  (\<open>2 + (5 + 3 - 1 - 1 - 1)\<close>), whatever the order of the three.
\<close>

theorem concrete_catalog_cardinality:
  assumes "length catalog = 3"
    and "length (filter isScalar catalog) = 2"
    and "filter isHistogram catalog = [h]"
    and "boundaries rt bfu h = Inr B"
    and "B = [Fin 1, Fin 5, Fin 10] \<or> B = [NegInf, Fin 1, Fin 5, Fin 10, PosInf]"
  shows "rmCardinality catalog rt bfu = Inr 7"
proof -
  have "length (filter (\<lambda>d. \<not> isHistogram d) catalog) + length (filter isHistogram catalog) = length catalog"
    using sum_length_filter_compl [of isHistogram catalog] by simp
  then have others: "int (length (filter (\<lambda>d. \<not> isHistogram d) catalog)) = 2"
    using assms(1,3) by simp
  have adj: "adjustedBuckets bfu (sampleOf rt h) = Inr B"
    using assms(4) by (simp add: boundaries_def)
  have "B \<noteq> []"
    using assms(5) by auto
  from countHistogram_nonempty [OF adj this, of 2] assms(5)
  have "countHistogram bfu 2 (sampleOf rt h) = Inr 7"
    by auto
  then show ?thesis
    by (simp add: rmCardinality_eq assms(3) others)
qed

theorem concrete_catalog_cardinality_witness:
  "length [exDescription ''/gc/cycles:gc-cycles'' KindUint64,
           exDescription ''/cpu/classes/total:cpu-seconds'' KindFloat64,
           exDescription ''/gc/pauses:seconds'' KindFloat64Histogram] = 3
   \<and> length (filter isScalar
          [exDescription ''/gc/cycles:gc-cycles'' KindUint64,
           exDescription ''/cpu/classes/total:cpu-seconds'' KindFloat64,
           exDescription ''/gc/pauses:seconds'' KindFloat64Histogram]) = 2
   \<and> filter isHistogram
          [exDescription ''/gc/cycles:gc-cycles'' KindUint64,
           exDescription ''/cpu/classes/total:cpu-seconds'' KindFloat64,
           exDescription ''/gc/pauses:seconds'' KindFloat64Histogram]
       = [exDescription ''/gc/pauses:seconds'' KindFloat64Histogram]
   \<and> boundaries (exRuntime [4, 2] [Fin 1, Fin 5, Fin 10]) exBucketsForUnit
        (exDescription ''/gc/pauses:seconds'' KindFloat64Histogram) = Inr [Fin 1, Fin 5, Fin 10]
   \<and> rmCardinality
          [exDescription ''/gc/cycles:gc-cycles'' KindUint64,
           exDescription ''/cpu/classes/total:cpu-seconds'' KindFloat64,
           exDescription ''/gc/pauses:seconds'' KindFloat64Histogram]
          (exRuntime [4, 2] [Fin 1, Fin 5, Fin 10]) exBucketsForUnit = Inr 7
   \<and> boundaries (exRuntime [0, 4, 2, 0] [NegInf, Fin 1, Fin 5, Fin 10, PosInf]) exBucketsForUnit
        (exDescription ''/gc/pauses:seconds'' KindFloat64Histogram)
       = Inr [NegInf, Fin 1, Fin 5, Fin 10, PosInf]
   \<and> rmCardinality
          [exDescription ''/gc/cycles:gc-cycles'' KindUint64,
           exDescription ''/cpu/classes/total:cpu-seconds'' KindFloat64,
           exDescription ''/gc/pauses:seconds'' KindFloat64Histogram]
          (exRuntime [0, 4, 2, 0] [NegInf, Fin 1, Fin 5, Fin 10, PosInf]) exBucketsForUnit = Inr 7"
proof -
  let ?h = "exDescription ''/gc/pauses:seconds'' KindFloat64Histogram"
  let ?catalog = "[exDescription ''/gc/cycles:gc-cycles'' KindUint64,
                   exDescription ''/cpu/classes/total:cpu-seconds'' KindFloat64, ?h]"
  let ?rt1 = "exRuntime [4, 2] [Fin 1, Fin 5, Fin 10]"
  let ?rt2 = "exRuntime [0, 4, 2, 0] [NegInf, Fin 1, Fin 5, Fin 10, PosInf]"
  have l: "length ?catalog = 3"
    by simp
  have s: "length (filter isScalar ?catalog) = 2"
    by (simp add: isScalar_def ex_defs)
  have f: "filter isHistogram ?catalog = [?h]"
    by (simp add: isHistogram_def ex_defs)
  have b1: "boundaries ?rt1 exBucketsForUnit ?h = Inr [Fin 1, Fin 5, Fin 10]"
    by (simp add: run_defs ex_defs)
  have b2: "boundaries ?rt2 exBucketsForUnit ?h = Inr [NegInf, Fin 1, Fin 5, Fin 10, PosInf]"
    by (simp add: run_defs ex_defs)
  have r1: "rmCardinality ?catalog ?rt1 exBucketsForUnit = Inr 7"
    using concrete_catalog_cardinality [OF l s f b1] by simp
  have r2: "rmCardinality ?catalog ?rt2 exBucketsForUnit = Inr 7"
    using concrete_catalog_cardinality [OF l s f b2] by simp
  from l s f b1 b2 r1 r2 show ?thesis
    by (simp only: simp_thms)
qed

text \<open>
  Claim C4. In every catalog the Scalar descriptors add exactly their number to the
  total: the run over the catalog is the run over the catalog without its Scalar
  descriptors plus the number of Scalar descriptors; the run over the Scalar descriptors
  alone returns their number; and the run over a catalog of Scalar descriptors only
  returns its length. Only the kinds are read, so the names and units of the Scalar
  descriptors do not matter.
\<close>

theorem scalar_contribution:
  "rmCardinality catalog rt bfu
     = addSeries (int (length (filter isScalar catalog)))
         (rmCardinality (filter (\<lambda>d. \<not> isScalar d) catalog) rt bfu)
   \<and> rmCardinality (filter isScalar catalog) rt bfu = Inr (int (length (filter isScalar catalog)))
   \<and> ((\<forall>d\<in>set catalog. isScalar d) \<longrightarrow> rmCardinality catalog rt bfu = Inr (int (length catalog)))"
proof (intro conjI impI)
  have "int (length (filter (\<lambda>d. \<not> isHistogram d) catalog))
      = int (length (filter (\<lambda>d. \<not> isHistogram d) (filter (\<lambda>d. \<not> isScalar d) catalog)))
        + int (length (filter isScalar catalog))"
    using length_filter_other [of catalog] by simp
  then show "rmCardinality catalog rt bfu
     = addSeries (int (length (filter isScalar catalog)))
         (rmCardinality (filter (\<lambda>d. \<not> isScalar d) catalog) rt bfu)"
    by (simp only: rmCardinality_eq filter_histogram_non_scalar handleHistograms_shift)
next
  have only: "filter isHistogram ds = [] \<and> filter (\<lambda>d. \<not> isHistogram d) ds = ds"
    if "\<forall>d\<in>set ds. isScalar d" for ds
    using that by (induction ds) (auto dest: scalar_not_histogram)
  have "\<forall>d\<in>set (filter isScalar catalog). isScalar d"
    by simp
  from only [OF this]
  show "rmCardinality (filter isScalar catalog) rt bfu = Inr (int (length (filter isScalar catalog)))"
    by (simp add: rmCardinality_eq)
  assume "\<forall>d\<in>set catalog. isScalar d"
  from only [OF this]
  show "rmCardinality catalog rt bfu = Inr (int (length catalog))"
    by (simp add: rmCardinality_eq)
qed

theorem scalar_contribution_witness:
  "isScalar (exDescription ''/gc/cycles:gc-cycles'' KindUint64)
   \<and> isScalar (exDescription ''/cpu/classes/total:cpu-seconds'' KindFloat64)
   \<and> rmCardinality
        [exDescription ''/gc/cycles:gc-cycles'' KindUint64,
         exDescription ''/cpu/classes/total:cpu-seconds'' KindFloat64]
        (exRuntime [] []) exBucketsForUnit = Inr 2
   \<and> rmCardinality
        [exDescription ''/gc/cycles:gc-cycles'' KindUint64,
         exDescription ''/gc/pauses:seconds'' KindFloat64Histogram,
         exDescription ''/cpu/classes/total:cpu-seconds'' KindFloat64]
        (exRuntime [3] [Fin 0, Fin 1]) exBucketsForUnit = Inr 6
   \<and> rmCardinality [exDescription ''/gc/pauses:seconds'' KindFloat64Histogram]
        (exRuntime [3] [Fin 0, Fin 1]) exBucketsForUnit = Inr 4"
proof -
  let ?s1 = "exDescription ''/gc/cycles:gc-cycles'' KindUint64"
  let ?s2 = "exDescription ''/cpu/classes/total:cpu-seconds'' KindFloat64"
  let ?h = "exDescription ''/gc/pauses:seconds'' KindFloat64Histogram"
  have s: "isScalar ?s1" "isScalar ?s2" "\<not> isScalar ?h"
    by (simp_all add: isScalar_def ex_defs)
  then have all: "\<forall>d\<in>set [?s1, ?s2]. isScalar d"
    by simp
  have r: "rmCardinality [?h] (exRuntime [3] [Fin 0, Fin 1]) exBucketsForUnit = Inr 4"
    by (simp add: run_defs ex_defs)
  from scalar_contribution [of "[?s1, ?s2]" "exRuntime [] []" exBucketsForUnit] all
  have a: "rmCardinality [?s1, ?s2] (exRuntime [] []) exBucketsForUnit = Inr (int (length [?s1, ?s2]))"
    by blast
  from scalar_contribution [of "[?s1, ?h, ?s2]" "exRuntime [3] [Fin 0, Fin 1]" exBucketsForUnit]
  have "rmCardinality [?s1, ?h, ?s2] (exRuntime [3] [Fin 0, Fin 1]) exBucketsForUnit
      = addSeries (int (length (filter isScalar [?s1, ?h, ?s2])))
          (rmCardinality (filter (\<lambda>d. \<not> isScalar d) [?s1, ?h, ?s2])
             (exRuntime [3] [Fin 0, Fin 1]) exBucketsForUnit)"
    by (rule conjunct1)
  with s r
  have b: "rmCardinality [?s1, ?h, ?s2] (exRuntime [3] [Fin 0, Fin 1]) exBucketsForUnit = Inr 6"
    by simp
  from s a b r show ?thesis
    by simp
qed

text \<open>
  Claim C6. For a descriptor name with at most one \<open>:\<close>, as the names of the runtime's
  catalog are (\<open>/path/to/metric:unit\<close>), the unit passed on when the boundaries of a
  histogram are adjusted is the portion of the name after its last \<open>:\<close>, and the slice
  does not panic. (The code slices after the first \<open>:\<close>, see \<open>unitOf_eq\<close>; the two
  are the same portion of such a name.)
\<close>

theorem unit_after_last_colon:
  assumes "count_list name CHR '':'' \<le> 1"
  shows "unitOf name = Inr (afterLastColon name)
   \<and> adjustedBuckets bfu \<lparr>Sample_Name = name, Sample_Value = Float64HistogramValue fh\<rparr>
       = Inr (bfu (Buckets fh) (afterLastColon name))"
  using afterFirstColon_afterLastColon [OF assms]
  by (simp add: adjustedBuckets_def unitOf_eq)

theorem unit_after_last_colon_witness:
  "count_list ''/gc/pauses:seconds'' CHR '':'' \<le> 1
   \<and> afterLastColon ''/gc/pauses:seconds'' = ''seconds''
   \<and> unitOf ''/gc/pauses:seconds'' = Inr ''seconds''
   \<and> adjustedBuckets (\<lambda>buckets u. if u = ''seconds'' then [PosInf] else buckets)
        \<lparr>Sample_Name = ''/gc/pauses:seconds'',
         Sample_Value = Float64HistogramValue \<lparr>Counts = [4, 2], Buckets = [Fin 0, Fin 1, Fin 2]\<rparr>\<rparr>
       = Inr [PosInf]"
proof -
  have c: "count_list ''/gc/pauses:seconds'' CHR '':'' \<le> 1"
    by simp
  have a: "afterLastColon ''/gc/pauses:seconds'' = ''seconds''"
    by (simp add: afterLastColon_def)
  from unit_after_last_colon [OF c,
      of "\<lambda>buckets u. if u = ''seconds'' then [PosInf] else buckets"
         "\<lparr>Counts = [4, 2], Buckets = [Fin 0, Fin 1, Fin 2]\<rparr>"] c a
  show ?thesis by simp
qed

text \<open>
  Claim C7. The generated cardinality does not depend on the translation: replacing a
  descriptor by one of the same kind and, for a histogram, the same adjusted boundaries
  leaves it as it is, whatever the two translators and naming tables make of the two
  descriptors. In the witness the first descriptor is absent from the naming table and
  the second is translated.
\<close>

theorem cardinality_independent_of_translation:
  assumes "Kind d1 = Kind d2"
    and "Kind d1 = KindFloat64Histogram \<longrightarrow> boundaries rt bfu d1 = boundaries rt bfu d2"
  shows "map_sum id expectedRuntimeMetricsCardinality (generate toProm1 fq1 (xs @ d1 # ys) rt bfu)
       = map_sum id expectedRuntimeMetricsCardinality (generate toProm2 fq2 (xs @ d2 # ys) rt bfu)"
proof -
  have "rmCardinality (xs @ d1 # ys) rt bfu = rmCardinality (xs @ d2 # ys) rt bfu"
  proof (cases "Kind d1 = KindFloat64Histogram")
    case True
    with assms have h: "isHistogram d1" "isHistogram d2"
      and eq: "adjustedBuckets bfu (sampleOf rt d1) = adjustedBuckets bfu (sampleOf rt d2)"
      by (simp_all add: isHistogram_def boundaries_def)
    from h handleHistograms_replace [OF eq] show ?thesis
      by (simp add: rmCardinality_eq)
  next
    case False
    with assms(1) have "Kind d2 \<noteq> KindFloat64Histogram" by simp
    with False show ?thesis
      by (simp add: rmCardinality_insert_other)
  qed
  then show ?thesis
    by (simp only: generate_cardinality)
qed

theorem cardinality_independent_of_translation_witness:
  "rm2prom (RuntimeMetricsToProm exTable) exBuildFQName
     (exDescription ''/sched/latencies:seconds'' KindFloat64Histogram) = []
   \<and> rm2prom (RuntimeMetricsToProm exTable) exBuildFQName
       (exDescription ''/gc/pauses:seconds'' KindFloat64Histogram) = ''go_gc_pauses_seconds''
   \<and> Kind (exDescription ''/sched/latencies:seconds'' KindFloat64Histogram)
       = Kind (exDescription ''/gc/pauses:seconds'' KindFloat64Histogram)
   \<and> boundaries (exRuntime [4, 2] [NegInf, Fin 1, PosInf]) exBucketsForUnit
        (exDescription ''/sched/latencies:seconds'' KindFloat64Histogram)
       = boundaries (exRuntime [4, 2] [NegInf, Fin 1, PosInf]) exBucketsForUnit
          (exDescription ''/gc/pauses:seconds'' KindFloat64Histogram)
   \<and> map_sum id expectedRuntimeMetricsCardinality
        (generate (RuntimeMetricsToProm exTable) exBuildFQName
          ([] @ exDescription ''/sched/latencies:seconds'' KindFloat64Histogram # [])
          (exRuntime [4, 2] [NegInf, Fin 1, PosInf]) exBucketsForUnit) = Inr 3
   \<and> map_sum id expectedRuntimeMetricsCardinality
        (generate (RuntimeMetricsToProm exTable) exBuildFQName
          ([] @ exDescription ''/gc/pauses:seconds'' KindFloat64Histogram # [])
          (exRuntime [4, 2] [NegInf, Fin 1, PosInf]) exBucketsForUnit) = Inr 3"
proof -
  let ?d1 = "exDescription ''/sched/latencies:seconds'' KindFloat64Histogram"
  let ?d2 = "exDescription ''/gc/pauses:seconds'' KindFloat64Histogram"
  let ?rt = "exRuntime [4, 2] [NegInf, Fin 1, PosInf]"
  have t1: "rm2prom (RuntimeMetricsToProm exTable) exBuildFQName ?d1 = []"
    by (simp add: rm2prom_def RuntimeMetricsToProm_def exTable_def exDescription_def)
  have t2: "rm2prom (RuntimeMetricsToProm exTable) exBuildFQName ?d2 = ''go_gc_pauses_seconds''"
    by (simp add: rm2prom_def RuntimeMetricsToProm_def exTable_def exDescription_def exBuildFQName_def)
  have k: "Kind ?d1 = Kind ?d2"
    by (simp add: exDescription_def)
  have b: "boundaries ?rt exBucketsForUnit ?d1 = boundaries ?rt exBucketsForUnit ?d2"
    by (simp add: run_defs ex_defs)
  then have b': "Kind ?d1 = KindFloat64Histogram
      \<longrightarrow> boundaries ?rt exBucketsForUnit ?d1 = boundaries ?rt exBucketsForUnit ?d2"
    by simp
  have r: "map_sum id expectedRuntimeMetricsCardinality
        (generate (RuntimeMetricsToProm exTable) exBuildFQName ([] @ ?d2 # []) ?rt exBucketsForUnit)
       = Inr 3"
    by (simp add: generate_def run_defs ex_defs)
  from cardinality_independent_of_translation [OF k b',
      of "RuntimeMetricsToProm exTable" exBuildFQName "[]" "[]" "RuntimeMetricsToProm exTable" exBuildFQName]
    t1 t2 k b r
  show ?thesis by (simp only: simp_thms)
qed

text \<open>
  Claim C8. Two runs of \<open>rmCardinality\<close> over the same catalog give the same result
  whenever the two runtimes agree on the adjusted boundaries of the catalog's histograms
  (the counts and every other value may differ); and the entry the template writes for a
  descriptor is determined by that descriptor alone, whatever comes before and after it
  in the catalog. The translator and the name builder are functions of their arguments
  in this model.
\<close>

theorem calculator_and_translator_deterministic:
  assumes "\<forall>d\<in>set catalog. Kind d = KindFloat64Histogram
             \<longrightarrow> boundaries rt1 bfu d = boundaries rt2 bfu d"
  shows "rmCardinality catalog rt1 bfu = rmCardinality catalog rt2 bfu
       \<and> rangeDescriptions toProm fq (xs @ d # ys)
           = rangeDescriptions toProm fq xs
             @ (if rm2prom toProm fq d \<noteq> [] then [(Name d, rm2prom toProm fq d)] else [])
             @ rangeDescriptions toProm fq ys"
proof
  have "\<forall>d\<in>set (filter isHistogram catalog).
          adjustedBuckets bfu (sampleOf rt1 d) = adjustedBuckets bfu (sampleOf rt2 d)"
    using assms by (simp add: isHistogram_def boundaries_def)
  then have "handleHistograms bfu (map (sampleOf rt1) (filter isHistogram catalog)) c
           = handleHistograms bfu (map (sampleOf rt2) (filter isHistogram catalog)) c" for c
    by (rule handleHistograms_cong)
  then show "rmCardinality catalog rt1 bfu = rmCardinality catalog rt2 bfu"
    by (simp add: rmCardinality_eq)
next
  have "rangeDescriptions toProm fq (d # ys)
      = (if rm2prom toProm fq d \<noteq> [] then [(Name d, rm2prom toProm fq d)] else [])
        @ rangeDescriptions toProm fq ys"
    by (simp add: Let_def)
  then show "rangeDescriptions toProm fq (xs @ d # ys)
      = rangeDescriptions toProm fq xs
        @ (if rm2prom toProm fq d \<noteq> [] then [(Name d, rm2prom toProm fq d)] else [])
        @ rangeDescriptions toProm fq ys"
    by (simp only: rangeDescriptions_append)
qed

theorem calculator_and_translator_deterministic_witness:
  "boundaries (exRuntime [4, 2] [NegInf, Fin 1, PosInf]) exBucketsForUnit
     (exDescription ''/gc/pauses:seconds'' KindFloat64Histogram)
    = boundaries (exRuntime [9, 7] [NegInf, Fin 1, PosInf]) exBucketsForUnit
       (exDescription ''/gc/pauses:seconds'' KindFloat64Histogram)
   \<and> rmCardinality
        [exDescription ''/gc/cycles:gc-cycles'' KindUint64,
         exDescription ''/gc/pauses:seconds'' KindFloat64Histogram]
        (exRuntime [4, 2] [NegInf, Fin 1, PosInf]) exBucketsForUnit = Inr 4
   \<and> rmCardinality
        [exDescription ''/gc/cycles:gc-cycles'' KindUint64,
         exDescription ''/gc/pauses:seconds'' KindFloat64Histogram]
        (exRuntime [9, 7] [NegInf, Fin 1, PosInf]) exBucketsForUnit = Inr 4
   \<and> rangeDescriptions (RuntimeMetricsToProm exTable) exBuildFQName
        ([exDescription ''/gc/cycles:gc-cycles'' KindUint64]
         @ exDescription ''/gc/pauses:seconds'' KindFloat64Histogram
         # [exDescription ''/sched/latencies:seconds'' KindFloat64Histogram])
       = [(''/gc/pauses:seconds'', ''go_gc_pauses_seconds'')]"
proof -
  let ?s = "exDescription ''/gc/cycles:gc-cycles'' KindUint64"
  let ?h = "exDescription ''/gc/pauses:seconds'' KindFloat64Histogram"
  let ?l = "exDescription ''/sched/latencies:seconds'' KindFloat64Histogram"
  let ?rt1 = "exRuntime [4, 2] [NegInf, Fin 1, PosInf]"
  let ?rt2 = "exRuntime [9, 7] [NegInf, Fin 1, PosInf]"
  have b: "boundaries ?rt1 exBucketsForUnit ?h = boundaries ?rt2 exBucketsForUnit ?h"
    by (simp add: run_defs ex_defs)
  have s: "Kind ?s \<noteq> KindFloat64Histogram"
    by (simp add: ex_defs)
  have hyp: "\<forall>d\<in>set [?s, ?h]. Kind d = KindFloat64Histogram
      \<longrightarrow> boundaries ?rt1 exBucketsForUnit d = boundaries ?rt2 exBucketsForUnit d"
    using b s by simp
  have r: "rmCardinality [?s, ?h] ?rt2 exBucketsForUnit = Inr 4"
    by (simp add: run_defs ex_defs)
  have t: "rm2prom (RuntimeMetricsToProm exTable) exBuildFQName ?h = ''go_gc_pauses_seconds''"
    by (simp add: rm2prom_def RuntimeMetricsToProm_def exTable_def exDescription_def exBuildFQName_def)
  have n: "Name ?h = ''/gc/pauses:seconds''"
    by (simp add: exDescription_def)
  have x: "rangeDescriptions (RuntimeMetricsToProm exTable) exBuildFQName [?s] = []"
    by (simp add: rm2prom_def RuntimeMetricsToProm_def exTable_def exDescription_def)
  have y: "rangeDescriptions (RuntimeMetricsToProm exTable) exBuildFQName [?l] = []"
    by (simp add: rm2prom_def RuntimeMetricsToProm_def exTable_def exDescription_def)
  from calculator_and_translator_deterministic [OF hyp,
      of "RuntimeMetricsToProm exTable" exBuildFQName "[?s]" ?h "[?l]"] b r t n x y
  show ?thesis by simp
qed

text \<open>
  Claim C9. When every adjusted boundary array of a histogram of the catalog has at
  least one element, the run does not end with an index out of range; when the catalog
  has a histogram whose adjusted boundary array is empty, the run ends with a panic and
  yields no total.
\<close>

theorem boundary_access_in_bounds:
  "((\<forall>d\<in>set catalog. Kind d = KindFloat64Histogram
        \<longrightarrow> (\<forall>B. boundaries rt bfu d = Inr B \<longrightarrow> 1 \<le> length B))
      \<longrightarrow> rmCardinality catalog rt bfu \<noteq> Inl IndexOutOfRange)
   \<and> ((\<exists>d\<in>set catalog. Kind d = KindFloat64Histogram
          \<and> (\<exists>B. boundaries rt bfu d = Inr B \<and> length B < 1))
      \<longrightarrow> (\<exists>e. rmCardinality catalog rt bfu = Inl e))"
proof (intro conjI impI)
  assume ok: "\<forall>d\<in>set catalog. Kind d = KindFloat64Histogram
        \<longrightarrow> (\<forall>B. boundaries rt bfu d = Inr B \<longrightarrow> 1 \<le> length B)"
  show "rmCardinality catalog rt bfu \<noteq> Inl IndexOutOfRange"
  proof
    assume "rmCardinality catalog rt bfu = Inl IndexOutOfRange"
    then have "\<exists>h\<in>set (map (sampleOf rt) (filter isHistogram catalog)). adjustedBuckets bfu h = Inr []"
      unfolding rmCardinality_eq by (rule handleHistograms_IndexOutOfRange)
    then obtain d where "d \<in> set catalog" and "Kind d = KindFloat64Histogram"
      and "boundaries rt bfu d = Inr []"
      by (auto simp: isHistogram_def boundaries_def)
    with ok show False by auto
  qed
next
  assume "\<exists>d\<in>set catalog. Kind d = KindFloat64Histogram
          \<and> (\<exists>B. boundaries rt bfu d = Inr B \<and> length B < 1)"
  then obtain d where d: "d \<in> set catalog" "Kind d = KindFloat64Histogram"
    and "boundaries rt bfu d = Inr []"
    by auto
  then have e: "adjustedBuckets bfu (sampleOf rt d) = Inr []"
    by (simp add: boundaries_def)
  from d have "sampleOf rt d \<in> set (map (sampleOf rt) (filter isHistogram catalog))"
    by (simp add: isHistogram_def)
  from handleHistograms_empty_buckets [OF this e]
  show "\<exists>e. rmCardinality catalog rt bfu = Inl e"
    by (simp add: rmCardinality_eq)
qed

theorem boundary_access_in_bounds_witness:
  "boundaries (exRuntime [] [Fin 1]) exBucketsForUnit
     (exDescription ''/gc/pauses:seconds'' KindFloat64Histogram) = Inr [Fin 1]
   \<and> rmCardinality [exDescription ''/gc/pauses:seconds'' KindFloat64Histogram]
        (exRuntime [] [Fin 1]) exBucketsForUnit \<noteq> Inl IndexOutOfRange
   \<and> rmCardinality [exDescription ''/gc/pauses:seconds'' KindFloat64Histogram]
        (exRuntime [] [Fin 1]) exBucketsForUnit = Inr 3
   \<and> boundaries (exRuntime [] []) exBucketsForUnit
        (exDescription ''/gc/pauses:seconds'' KindFloat64Histogram) = Inr []
   \<and> (\<exists>e. rmCardinality [exDescription ''/gc/pauses:seconds'' KindFloat64Histogram]
          (exRuntime [] []) exBucketsForUnit = Inl e)
   \<and> rmCardinality [exDescription ''/gc/pauses:seconds'' KindFloat64Histogram]
        (exRuntime [] []) exBucketsForUnit = Inl IndexOutOfRange"
proof -
  let ?h = "exDescription ''/gc/pauses:seconds'' KindFloat64Histogram"
  have k: "Kind ?h = KindFloat64Histogram"
    by (simp add: exDescription_def)
  have b1: "boundaries (exRuntime [] [Fin 1]) exBucketsForUnit ?h = Inr [Fin 1]"
    by (simp add: run_defs ex_defs)
  have b2: "boundaries (exRuntime [] []) exBucketsForUnit ?h = Inr []"
    by (simp add: run_defs ex_defs)
  have h1: "\<forall>d\<in>set [?h]. Kind d = KindFloat64Histogram
      \<longrightarrow> (\<forall>B. boundaries (exRuntime [] [Fin 1]) exBucketsForUnit d = Inr B \<longrightarrow> 1 \<le> length B)"
    using b1 by auto
  have h2: "\<exists>d\<in>set [?h]. Kind d = KindFloat64Histogram
      \<and> (\<exists>B. boundaries (exRuntime [] []) exBucketsForUnit d = Inr B \<and> length B < 1)"
    using k b2 by simp
  have r1: "rmCardinality [?h] (exRuntime [] [Fin 1]) exBucketsForUnit = Inr 3"
    by (simp add: run_defs ex_defs)
  have r2: "rmCardinality [?h] (exRuntime [] []) exBucketsForUnit = Inl IndexOutOfRange"
    by (simp add: run_defs ex_defs)
  from boundary_access_in_bounds [of "[?h]" "exRuntime [] [Fin 1]" exBucketsForUnit] h1
  have c1: "rmCardinality [?h] (exRuntime [] [Fin 1]) exBucketsForUnit \<noteq> Inl IndexOutOfRange"
    by blast
  from boundary_access_in_bounds [of "[?h]" "exRuntime [] []" exBucketsForUnit] h2
  have c2: "\<exists>e. rmCardinality [?h] (exRuntime [] []) exBucketsForUnit = Inl e"
    by blast
  from b1 c1 r1 b2 c2 r2 show ?thesis
    by (intro conjI)
qed

text \<open>
  Claim C10. A descriptor of any kind other than the histogram kind, a bad or unknown
  kind included, adds exactly 1 to the total.
\<close>

theorem non_histogram_kind_counts_one:
  assumes "Kind d \<noteq> KindFloat64Histogram"
  shows "rmCardinality (xs @ d # ys) rt bfu = addSeries 1 (rmCardinality (xs @ ys) rt bfu)"
  using assms by (rule rmCardinality_insert_other)

theorem non_histogram_kind_counts_one_witness:
  "Kind (exDescription ''/odd/thing:things'' KindBad) \<noteq> KindFloat64Histogram
   \<and> Kind (exDescription ''/odd/other:things'' 7) \<noteq> KindFloat64Histogram
   \<and> rmCardinality ([] @ exDescription ''/odd/thing:things'' KindBad # [])
        (exRuntime [] []) exBucketsForUnit = Inr 1
   \<and> rmCardinality
        ([exDescription ''/gc/pauses:seconds'' KindFloat64Histogram]
         @ exDescription ''/odd/other:things'' 7 # [])
        (exRuntime [3] [Fin 0, Fin 1]) exBucketsForUnit = Inr 5
   \<and> rmCardinality ([exDescription ''/gc/pauses:seconds'' KindFloat64Histogram] @ [])
        (exRuntime [3] [Fin 0, Fin 1]) exBucketsForUnit = Inr 4"
proof -
  let ?bad = "exDescription ''/odd/thing:things'' KindBad"
  let ?odd = "exDescription ''/odd/other:things'' 7"
  let ?xs = "[exDescription ''/gc/pauses:seconds'' KindFloat64Histogram]"
  have k1: "Kind ?bad \<noteq> KindFloat64Histogram"
    by (simp add: ex_defs)
  have k2: "Kind ?odd \<noteq> KindFloat64Histogram"
    by (simp add: ex_defs)
  have r1: "rmCardinality ([] @ []) (exRuntime [] []) exBucketsForUnit = Inr 0"
    by (simp add: run_defs)
  have r2: "rmCardinality (?xs @ []) (exRuntime [3] [Fin 0, Fin 1]) exBucketsForUnit = Inr 4"
    by (simp add: run_defs ex_defs)
  from non_histogram_kind_counts_one [OF k1, of "[]" "[]" "exRuntime [] []" exBucketsForUnit]
    non_histogram_kind_counts_one [OF k2, of ?xs "[]" "exRuntime [3] [Fin 0, Fin 1]" exBucketsForUnit]
    k1 k2 r1 r2
  show ?thesis by simp
qed

end
